theory Spec2Isabelle
  imports Complex_Main "HOL-Library.AList" "HOL-Library.Sublist"
begin

section \<open>The bot manager of MCDashboard\<close>

text \<open>
  A shallow embedding of the class \<open>BotManager\<close> (the second document of
  \<^verbatim>\<open>src/backend/tests/websocket.test.ts\<close>, lines 111 to 517).

  \<^item> The two JavaScript \<open>Map\<close>s are association lists in insertion order: \<open>Map.set\<close> is
    \<open>AList.update\<close> (an existing key keeps its place, a new key goes to the end),
    \<open>Map.delete\<close> is \<open>AList.delete\<close>, \<open>Map.get\<close> is \<open>map_of\<close>.
  \<^item> The SQLite table \<open>accounts (id TEXT PRIMARY KEY, username TEXT, type TEXT)\<close> is the
    list of its rows; an \<open>INSERT\<close> of a key that is already there raises.
  \<^item> \<open>this.emit('update', this.getAccounts())\<close> and the calls into the two protocol
    libraries are appended to a trace, in the order in which the code makes them. The
    listener of \<^verbatim>\<open>server.ts\<close> serialises the list while \<open>emit\<close> runs, so an emission
    holds the accounts as they are at that moment.
  \<^item> Numbers are exact rationals: the rounding of IEEE doubles is not part of the model.
  \<^item> A text given to the stat extractor is a sequence of UTF-16 code units below
    \<open>0x100\<close>, one \<open>char\<close> each (the section sign is \<open>CHR 0xA7\<close>). Log text is payload that
    no code inspects; the emoji of the disconnect message is written as its UTF-8 bytes.
  \<^item> The clock (\<open>new Date().toLocaleTimeString()\<close>), \<open>process.env.SERVER_IP\<close> and the
    outcome of a protocol library's opener are arguments of the operation that reads them.
  \<^item> An entry point or a handler runs to its end before the next one starts; the calls
    \<open>quit\<close> and \<open>close\<close> of a connection raise no event while they run (the \<open>end\<close> and
    \<open>close\<close> events arrive later, as handlers of their own).
  \<^item> The column \<open>type\<close> of a row holds one of the two values of \<open>BotType\<close>.
\<close>

subsection \<open>Data\<close>

datatype BotType = Java | Bedrock

datatype Status = Online | Offline | Connecting | Error

record BotStats =
  shards :: rat
  money :: rat
  kills :: rat
  deaths :: rat

record BotAccount =
  acc_id :: string
  username :: string
  btype :: BotType
  status :: Status
  logs :: "string list"
  accountData :: BotStats

record Row =
  row_id :: string
  row_username :: string
  row_type :: BotType

text \<open>A connection object of mineflayer or bedrock-protocol is opaque to the manager.\<close>

type_synonym handle = nat

datatype effect =
    Update "BotAccount list"
  | CreateBot string
  | CreateClient string
  | Quit handle
  | Close handle

record manager =
  bots :: "(string \<times> handle) list"
  accounts :: "(string \<times> BotAccount) list"
  db :: "Row list"
  trace :: "effect list"

text \<open>
  The two exceptions: the constraint violation that SQLite raises for a second row with
  the same primary key, and what a protocol library's opener throws, of which the code
  reads the message only. An operation that can throw returns \<open>Inl\<close> with the exception
  and the manager as the exception leaves it.
\<close>

datatype error = DuplicateId

type_synonym 'e result = "('e \<times> manager) + manager"

datatype open_result = Opened handle | Threw string

definition zero_stats :: BotStats where
  "zero_stats = \<lparr>shards = 0, money = 0, kills = 0, deaths = 0\<rparr>"

definition type_name :: "BotType \<Rightarrow> string" where
  "type_name t = (case t of Java \<Rightarrow> ''java'' | Bedrock \<Rightarrow> ''bedrock'')"

subsection \<open>Accounts, persistence and the update event\<close>

definition getAccounts :: "manager \<Rightarrow> BotAccount list" where
  "getAccounts s = map snd (accounts s)"

definition emit_update :: "manager \<Rightarrow> manager" where
  "emit_update s = s\<lparr>trace := trace s @ [Update (getAccounts s)]\<rparr>"

definition fresh_account :: "string \<Rightarrow> string \<Rightarrow> BotType \<Rightarrow> BotAccount" where
  "fresh_account i u t =
     \<lparr>acc_id = i, username = u, btype = t, status = Offline, logs = [],
      accountData = zero_stats\<rparr>"

text \<open>\<open>loadAccounts\<close>: every row of the table becomes an offline account with no logs.\<close>

definition loadAccounts :: "manager \<Rightarrow> manager" where
  "loadAccounts s =
     fold (\<lambda>row m. m\<lparr>accounts :=
             AList.update (row_id row)
               (fresh_account (row_id row) (row_username row) (row_type row)) (accounts m)\<rparr>)
       (db s) s"

text \<open>The constructor, on a database file that holds \<open>rows\<close>.\<close>

definition new_manager :: "Row list \<Rightarrow> manager" where
  "new_manager rows = loadAccounts \<lparr>bots = [], accounts = [], db = rows, trace = []\<rparr>"

text \<open>
  \<open>INSERT INTO accounts\<close>: the primary key makes the statement raise when the id is in
  the table, and nothing after it in \<open>addAccount\<close> runs.
\<close>

definition db_insert :: "Row \<Rightarrow> Row list \<Rightarrow> error + Row list" where
  "db_insert r tbl =
     (if row_id r \<in> set (map row_id tbl) then Inl DuplicateId else Inr (tbl @ [r]))"

definition db_delete :: "string \<Rightarrow> Row list \<Rightarrow> Row list" where
  "db_delete i tbl = filter (\<lambda>r. row_id r \<noteq> i) tbl"

definition addAccount :: "string \<Rightarrow> string \<Rightarrow> BotType \<Rightarrow> manager \<Rightarrow> error result" where
  "addAccount i u t s =
     (case db_insert \<lparr>row_id = i, row_username = u, row_type = t\<rparr> (db s) of
        Inl e \<Rightarrow> Inl (e, s)
      | Inr tbl \<Rightarrow>
          Inr (emit_update
                 (s\<lparr>db := tbl,
                    accounts := AList.update i (fresh_account i u t) (accounts s)\<rparr>)))"

subsection \<open>The log of an account\<close>

text \<open>\<open>push\<close>, then \<open>shift\<close> when the list has grown beyond 100 entries.\<close>

definition push_log :: "string \<Rightarrow> string list \<Rightarrow> string list" where
  "push_log entry ls =
     (let pushed = ls @ [entry] in if length pushed > 100 then tl pushed else pushed)"

text \<open>The message behind the time of day, as \<open>log\<close> stores it.\<close>

definition stamp :: "string \<Rightarrow> string \<Rightarrow> string" where
  "stamp now message = ''['' @ now @ ''] '' @ message"

definition log_msg :: "string \<Rightarrow> string \<Rightarrow> string \<Rightarrow> manager \<Rightarrow> manager" where
  "log_msg now i message s =
     (case map_of (accounts s) i of
        None \<Rightarrow> s
      | Some account \<Rightarrow>
          emit_update
            (s\<lparr>accounts :=
                 AList.update i
                   (account\<lparr>logs := push_log (stamp now message) (logs account)\<rparr>)
                   (accounts s)\<rparr>))"

text \<open>An assignment \<open>account.status = v\<close> through the reference that \<open>Map.get\<close> returned.\<close>

definition set_status :: "string \<Rightarrow> Status \<Rightarrow> manager \<Rightarrow> manager" where
  "set_status i v s =
     (case map_of (accounts s) i of
        None \<Rightarrow> s
      | Some account \<Rightarrow> s\<lparr>accounts := AList.update i (account\<lparr>status := v\<rparr>) (accounts s)\<rparr>)"

subsection \<open>Connecting and disconnecting\<close>

definition call :: "effect \<Rightarrow> manager \<Rightarrow> manager" where
  "call e s = s\<lparr>trace := trace s @ [e]\<rparr>"

text \<open>
  The body of the \<open>try\<close> block of \<open>connectJava\<close>: \<open>mineflayer.createBot\<close> is called, and
  when it (or the registration of the handlers) throws, the exception leaves the block;
  otherwise the bot is stored.
\<close>

definition try_connectJava :: "open_result \<Rightarrow> string \<Rightarrow> string \<Rightarrow> manager \<Rightarrow> string result" where
  "try_connectJava outcome i u s =
     (let s1 = call (CreateBot u) s in
      case outcome of
        Threw msg \<Rightarrow> Inl (msg, s1)
      | Opened h \<Rightarrow> Inr (s1\<lparr>bots := AList.update i h (bots s1)\<rparr>))"

definition connectJava :: "string \<Rightarrow> open_result \<Rightarrow> string \<Rightarrow> string \<Rightarrow> manager \<Rightarrow> string result" where
  "connectJava now outcome i u s =
     (case try_connectJava outcome i u s of
        Inr s' \<Rightarrow> Inr s'
      | Inl (msg, s') \<Rightarrow> Inr (log_msg now i (''Connection failed: '' @ msg) s'))"

definition try_connectBedrock :: "open_result \<Rightarrow> string \<Rightarrow> string \<Rightarrow> manager \<Rightarrow> string result" where
  "try_connectBedrock outcome i u s =
     (let s1 = call (CreateClient u) s in
      case outcome of
        Threw msg \<Rightarrow> Inl (msg, s1)
      | Opened h \<Rightarrow> Inr (s1\<lparr>bots := AList.update i h (bots s1)\<rparr>))"

definition connectBedrock :: "string \<Rightarrow> open_result \<Rightarrow> string \<Rightarrow> string \<Rightarrow> manager \<Rightarrow> string result" where
  "connectBedrock now outcome i u s =
     (case try_connectBedrock outcome i u s of
        Inr s' \<Rightarrow> Inr s'
      | Inl (msg, s') \<Rightarrow> Inr (log_msg now i (''Bedrock Connection failed: '' @ msg) s'))"

definition connecting :: "string \<Rightarrow> BotType \<Rightarrow> string" where
  "connecting server_ip t = ''Connecting to '' @ server_ip @ '' ('' @ type_name t @ '')...''"

text \<open>
  \<open>connectBot\<close>. \<open>now\<close> is the clock read by the first log and \<open>now'\<close> the clock read by
  the log of the \<open>catch\<close> block.
\<close>

definition connectBot ::
  "string \<Rightarrow> string \<Rightarrow> string \<Rightarrow> open_result \<Rightarrow> string \<Rightarrow> manager \<Rightarrow> string result" where
  "connectBot server_ip now now' outcome i s =
     (case map_of (accounts s) i of
        None \<Rightarrow> Inr s
      | Some account \<Rightarrow>
          if status account = Online then Inr s
          else
            let s1 = emit_update (set_status i Connecting s);
                s2 = log_msg now i (connecting server_ip (btype account)) s1
            in if btype account = Java
               then connectJava now' outcome i (username account) s2
               else connectBedrock now' outcome i (username account) s2)"

text \<open>
  \<open>disconnectBot\<close>. The message starts with the plug emoji. The account's type is read
  after the log, through \<open>this.accounts.get(id)?.type\<close>: a missing account takes the
  \<open>else\<close> branch.
\<close>

definition disconnecting :: string where
  "disconnecting = [CHR 0xF0, CHR 0x9F, CHR 0x94, CHR 0x8C] @ '' Disconnecting manually...''"

definition disconnectBot :: "string \<Rightarrow> string \<Rightarrow> manager \<Rightarrow> manager" where
  "disconnectBot now i s =
     (case map_of (bots s) i of
        None \<Rightarrow> s
      | Some h \<Rightarrow>
          let s1 = log_msg now i disconnecting s;
              s2 = (if map_option btype (map_of (accounts s1) i) = Some Java
                    then call (Quit h) s1 else call (Close h) s1)
          in s2\<lparr>bots := AList.delete i (bots s2)\<rparr>)"

definition removeAccount :: "string \<Rightarrow> string \<Rightarrow> manager \<Rightarrow> manager" where
  "removeAccount now i s =
     (let s1 = disconnectBot now i s;
          s2 = s1\<lparr>db := db_delete i (db s1)\<rparr>;
          s3 = s2\<lparr>accounts := AList.delete i (accounts s2)\<rparr>
      in emit_update s3)"

subsection \<open>Text\<close>

definition section_sign :: char where
  "section_sign = CHR 0xA7"

text \<open>The dot of a regular expression matches every code unit but a line terminator.\<close>

definition any_char :: "char \<Rightarrow> bool" where
  "any_char c = (c \<noteq> CHR 0x0A \<and> c \<noteq> CHR 0x0D)"

text \<open>The class \<open>[0-9a-fk-or]\<close>.\<close>

definition colour_code :: "char \<Rightarrow> bool" where
  "colour_code c = (c \<in> set ''0123456789abcdefklmnor'')"

text \<open>
  \<open>replace(/\<section>X/g, '')\<close> for a class \<open>X\<close>: matches are taken from left to right and do not
  overlap.
\<close>

fun strip_codes :: "(char \<Rightarrow> bool) \<Rightarrow> string \<Rightarrow> string" where
  "strip_codes cls (c # d # cs) =
     (if c = section_sign \<and> cls d then strip_codes cls cs else c # strip_codes cls (d # cs))"
| "strip_codes cls cs = cs"

text \<open>
  \<open>replace(/[...]/g, '')\<close> with the class of the star, the dollar sign, the dagger, the
  skull, the hourglass and the watch: the dollar sign is its only member below \<open>0x100\<close>.
\<close>

definition strip_glyphs :: "string \<Rightarrow> string" where
  "strip_glyphs cs = filter (\<lambda>c. c \<noteq> CHR ''$'') cs"

text \<open>
  \<open>toLowerCase\<close> below \<open>0x100\<close>: the letters A to Z, and the letters from \<open>0xC0\<close> to
  \<open>0xDE\<close> but the multiplication sign \<open>0xD7\<close>, move up by \<open>0x20\<close>.
\<close>

definition lower_char :: "char \<Rightarrow> char" where
  "lower_char c =
     (let n = (of_char c :: nat)
      in if (65 \<le> n \<and> n \<le> 90) \<or> (192 \<le> n \<and> n \<le> 222 \<and> n \<noteq> 215)
         then char_of (n + 32) else c)"

definition toLowerCase :: "string \<Rightarrow> string" where
  "toLowerCase cs = map lower_char cs"

primrec includes_js :: "string \<Rightarrow> string \<Rightarrow> bool" where
  "includes_js [] l = (l = [])"
| "includes_js (c # cs) l = (prefix l (c # cs) \<or> includes_js cs l)"

text \<open>
  \<open>text.split(sep)\<close> for a separator that is not empty. \<open>cur\<close> is the piece being read, in
  reverse; \<open>skip\<close> counts the code units of a separator that are still to be passed.
\<close>

fun split_go :: "string \<Rightarrow> nat \<Rightarrow> string \<Rightarrow> string \<Rightarrow> string list" where
  "split_go sep skip cur [] = [rev cur]"
| "split_go sep skip cur (c # cs) =
     (if skip > 0 then split_go sep (skip - 1) cur cs
      else if prefix sep (c # cs) then rev cur # split_go sep (length sep - 1) [] cs
      else split_go sep 0 (c # cur) cs)"

definition split_js :: "string \<Rightarrow> string \<Rightarrow> string list" where
  "split_js sep text = split_go sep 0 [] text"

definition white_space :: "char \<Rightarrow> bool" where
  "white_space c = (c \<in> {CHR 0x09, CHR 0x0A, CHR 0x0B, CHR 0x0C, CHR 0x0D, CHR 0x20, CHR 0xA0})"

definition trim :: "string \<Rightarrow> string" where
  "trim cs = rev (dropWhile white_space (rev (dropWhile white_space cs)))"

subsection \<open>Numbers in text\<close>

definition is_digit :: "char \<Rightarrow> bool" where
  "is_digit c = (c \<in> set ''0123456789'')"

text \<open>
  \<open>text.match(/(\d+\.?\d*)([kmb])?/)\<close>: the match starts at the first digit. Every part
  after \<open>\d+\<close> may match nothing, so the greedy choice is never undone. The result is
  capture group 1 and capture group 2.
\<close>

fun match_number :: "string \<Rightarrow> (string \<times> char option) option" where
  "match_number [] = None"
| "match_number (c # cs) =
     (if is_digit c then
        let ds = takeWhile is_digit (c # cs);
            r1 = dropWhile is_digit (c # cs);
            dot = (case r1 of [] \<Rightarrow> [] | d # _ \<Rightarrow> if d = CHR ''.'' then ''.'' else []);
            r2 = drop (length dot) r1;
            fs = takeWhile is_digit r2;
            r3 = dropWhile is_digit r2;
            sfx = (case r3 of [] \<Rightarrow> None
                      | k # _ \<Rightarrow> if k \<in> set ''kmb'' then Some k else None)
        in Some (ds @ dot @ fs, sfx)
      else match_number cs)"

definition digit_val :: "char \<Rightarrow> nat" where
  "digit_val c = of_char c - 48"

definition digits_val :: "string \<Rightarrow> nat" where
  "digits_val ds = foldl (\<lambda>n c. 10 * n + digit_val c) 0 ds"

text \<open>
  \<open>parseFloat\<close> on the strings that capture group 1 can hold: digits, then possibly a dot
  and more digits.
\<close>

definition parseFloat :: "string \<Rightarrow> rat" where
  "parseFloat str =
     (let ip = takeWhile is_digit str;
          r = dropWhile is_digit str;
          fp = (case r of [] \<Rightarrow> [] | d # r' \<Rightarrow> if d = CHR ''.'' then takeWhile is_digit r' else [])
      in of_nat (digits_val ip) + of_nat (digits_val fp) / 10 ^ length fp)"

definition multiplier :: "char option \<Rightarrow> rat" where
  "multiplier sfx =
     (if sfx = Some CHR ''k'' then 1000
      else if sfx = Some CHR ''m'' then 1000000
      else if sfx = Some CHR ''b'' then 1000000000
      else 1)"

subsection \<open>Statistics\<close>

text \<open>
  \<open>accountData[key]\<close>, read and written. The code uses the keys "shards" and "money"
  only; the last branch stands for the key "deaths".
\<close>

definition get_stat :: "string \<Rightarrow> BotStats \<Rightarrow> rat" where
  "get_stat key st =
     (if key = ''shards'' then shards st else if key = ''money'' then money st
      else if key = ''kills'' then kills st else deaths st)"

definition put_stat :: "string \<Rightarrow> rat \<Rightarrow> BotStats \<Rightarrow> BotStats" where
  "put_stat key v st =
     (if key = ''shards'' then st\<lparr>shards := v\<rparr> else if key = ''money'' then st\<lparr>money := v\<rparr>
      else if key = ''kills'' then st\<lparr>kills := v\<rparr> else st\<lparr>deaths := v\<rparr>)"

definition labels :: "string list" where
  "labels = [''money'', ''shards'']"

definition valuePart :: "string \<Rightarrow> string \<Rightarrow> string" where
  "valuePart label clean = (case split_js label clean of _ # p # _ \<Rightarrow> trim p | _ \<Rightarrow> [])"

text \<open>
  Lines 395 to 412 of \<open>updateStat\<close>, which read no state: the cleaned text, the label and
  the value that follows it.
\<close>

definition clean_text :: "string \<Rightarrow> string" where
  "clean_text rawText = toLowerCase (strip_glyphs (strip_codes any_char rawText))"

definition extract_stat :: "string \<Rightarrow> (string \<times> rat) option" where
  "extract_stat rawText =
     (let clean = clean_text rawText in
      case find (\<lambda>l. includes_js clean l) labels of
        None \<Rightarrow> None
      | Some label \<Rightarrow>
          (case match_number (valuePart label clean) of
             None \<Rightarrow> None
           | Some (m1, sfx) \<Rightarrow> Some (label, parseFloat m1 * multiplier sfx)))"

text \<open>The last lines of \<open>updateStat\<close>: the value is stored, and announced, when it differs.\<close>

definition merge_stat :: "string \<Rightarrow> string \<Rightarrow> rat \<Rightarrow> manager \<Rightarrow> manager" where
  "merge_stat i key finalVal s =
     (case map_of (accounts s) i of
        None \<Rightarrow> s
      | Some account \<Rightarrow>
          if get_stat key (accountData account) \<noteq> finalVal
          then emit_update
                 (s\<lparr>accounts :=
                      AList.update i
                        (account\<lparr>accountData := put_stat key finalVal (accountData account)\<rparr>)
                        (accounts s)\<rparr>)
          else s)"

definition updateStat :: "string \<Rightarrow> string \<Rightarrow> manager \<Rightarrow> manager" where
  "updateStat i rawText s =
     (if rawText = [] \<or> rawText = ''undefined'' then s
      else case map_of (accounts s) i of
        None \<Rightarrow> s
      | Some account \<Rightarrow>
          (case extract_stat rawText of
             None \<Rightarrow> s
           | Some (key, finalVal) \<Rightarrow> merge_stat i key finalVal s))"

text \<open>
  The helper \<open>updateNumericStat\<close> of the \<open>scoreUpdated\<close> handler: the changed account and
  whether it changed. \<open>parseFloat(match[1]) || 0\<close> is the parsed number, since \<open>0 || 0\<close> is
  \<open>0\<close>.
\<close>

definition updateNumericStat :: "string \<Rightarrow> string \<Rightarrow> string \<Rightarrow> BotAccount \<Rightarrow> BotAccount \<times> bool" where
  "updateNumericStat cleanText key searchStr account =
     (if includes_js cleanText searchStr then
        (case match_number (toLowerCase cleanText) of
           None \<Rightarrow> (account, False)
         | Some (m1, sfx) \<Rightarrow>
             let finalVal = parseFloat m1 * multiplier sfx
             in if get_stat key (accountData account) \<noteq> finalVal
                then (account\<lparr>accountData := put_stat key finalVal (accountData account)\<rparr>, True)
                else (account, False))
      else (account, False))"

text \<open>
  The \<open>scoreUpdated\<close> handler of a Java bot. \<open>item\<close> is the text of the scoreboard item
  whose value is the updated one, \<open>None\<close> when \<open>find\<close> returns none.
\<close>

definition scoreUpdated :: "string \<Rightarrow> string option \<Rightarrow> manager \<Rightarrow> manager" where
  "scoreUpdated i item s =
     (case (item, map_of (accounts s) i) of
        (Some text, Some account) \<Rightarrow>
          let cleanText = strip_codes colour_code text;
              (a1, shardsChanged) = updateNumericStat cleanText ''shards'' ''Shards'' account;
              (a2, moneyChanged) = updateNumericStat cleanText ''money'' ''Money'' a1;
              s' = s\<lparr>accounts := AList.update i a2 (accounts s)\<rparr>
          in if shardsChanged \<or> moneyChanged then emit_update s' else s'
      | _ \<Rightarrow> s)"

text \<open>The \<open>set_score\<close> handler of a Bedrock client: one \<open>updateStat\<close> for each entry.\<close>

definition set_score :: "string \<Rightarrow> string list \<Rightarrow> manager \<Rightarrow> manager" where
  "set_score i entries s = fold (updateStat i) entries s"

subsection \<open>The other handlers of a connection\<close>

text \<open>\<open>login\<close> of a Java bot and \<open>spawn\<close> of a Bedrock client.\<close>

definition on_join :: "string \<Rightarrow> string \<Rightarrow> string \<Rightarrow> manager \<Rightarrow> manager" where
  "on_join now message i s =
     (case map_of (accounts s) i of
        None \<Rightarrow> s
      | Some account \<Rightarrow> emit_update (log_msg now i message (set_status i Online s)))"

text \<open>\<open>error\<close> and \<open>end\<close> (or \<open>close\<close>): the log, the new status, one more emission.\<close>

definition on_error :: "string \<Rightarrow> string \<Rightarrow> string \<Rightarrow> manager \<Rightarrow> manager" where
  "on_error now message i s = emit_update (set_status i Error (log_msg now i message s))"

definition on_end :: "string \<Rightarrow> string \<Rightarrow> string \<Rightarrow> manager \<Rightarrow> manager" where
  "on_end now message i s = emit_update (set_status i Offline (log_msg now i message s))"

subsection \<open>Runs of the manager\<close>

text \<open>
  The entry points and the handlers, as the commands of a run. A command that throws
  leaves the manager as the exception left it.
\<close>

datatype command =
    AddAccount string string BotType
  | RemoveAccount string string
  | Log string string string
  | ConnectBot string string string open_result string
  | DisconnectBot string string
  | UpdateStat string string
  | ScoreUpdated string "string option"
  | SetScore string "string list"
  | Join string string string
  | ErrorEvent string string string
  | EndEvent string string string

definition state_of :: "'e result \<Rightarrow> manager" where
  "state_of r = (case r of Inl (e, s) \<Rightarrow> s | Inr s \<Rightarrow> s)"

fun step :: "command \<Rightarrow> manager \<Rightarrow> manager" where
  "step (AddAccount i u t) s = state_of (addAccount i u t s)"
| "step (RemoveAccount now i) s = removeAccount now i s"
| "step (Log now i message) s = log_msg now i message s"
| "step (ConnectBot ip now now' outcome i) s = state_of (connectBot ip now now' outcome i s)"
| "step (DisconnectBot now i) s = disconnectBot now i s"
| "step (UpdateStat i rawText) s = updateStat i rawText s"
| "step (ScoreUpdated i item) s = scoreUpdated i item s"
| "step (SetScore i entries) s = set_score i entries s"
| "step (Join now message i) s = on_join now message i s"
| "step (ErrorEvent now message i) s = on_error now message i s"
| "step (EndEvent now message i) s = on_end now message i s"

definition run :: "command list \<Rightarrow> manager \<Rightarrow> manager" where
  "run cs s = fold step cs s"

text \<open>The snapshots that a trace holds, in the order of their emission.\<close>

fun snapshots :: "effect list \<Rightarrow> BotAccount list list" where
  "snapshots [] = []"
| "snapshots (Update as # es) = as # snapshots es"
| "snapshots (_ # es) = snapshots es"

text \<open>
  The table and its mirror hold the same ids in the same order, each id once; and no
  log is longer than 100 entries.
\<close>

definition consistent :: "manager \<Rightarrow> bool" where
  "consistent s =
     (distinct (map row_id (db s)) \<and> map fst (accounts s) = map row_id (db s))"

definition logs_bounded :: "manager \<Rightarrow> bool" where
  "logs_bounded s = (\<forall>a \<in> set (getAccounts s). length (logs a) \<le> 100)"

subsection \<open>Example states\<close>

text \<open>
  A manager that starts on an empty table and is given one Java account; the same
  manager once \<open>connectBot\<close> has opened a connection for the account.
\<close>

definition offline_manager :: manager where
  "offline_manager = state_of (addAccount ''a'' ''u'' Java (new_manager []))"

definition connected_manager :: manager where
  "connected_manager =
     state_of (connectBot ''mc.example.org'' ''12:00:00'' ''12:00:01'' (Opened 7) ''a''
       offline_manager)"

text \<open>The same manager once the bot has logged in.\<close>

definition online_manager :: manager where
  "online_manager = on_join ''12:00:05'' ''Logged in successfully!'' ''a'' connected_manager"

text \<open>The first manager after 100 log appends, and its account, whose log is full.\<close>

definition full_manager :: manager where
  "full_manager =
     run (Log ''11:00:00'' ''a'' ''first'' # replicate 99 (Log ''11:00:01'' ''a'' ''later''))
       offline_manager"

definition full_account :: BotAccount where
  "full_account =
     (fresh_account ''a'' ''u'' Java)
       \<lparr>logs := stamp ''11:00:00'' ''first'' # replicate 99 (stamp ''11:00:01'' ''later'')\<rparr>"

section \<open>Properties\<close>

subsection \<open>Maps, the log and the trace\<close>

lemma keys_update_present:
  "map_of al k = Some v \<Longrightarrow> map fst (AList.update k v' al) = map fst al"
  by (induction al) (auto split: if_splits)

lemma set_update_subset: "set (AList.update k v al) \<subseteq> insert (k, v) (set al)"
  by (induction al) auto

lemma length_push_log: "length ls \<le> 100 \<Longrightarrow> length (push_log e ls) \<le> 100"
  by (simp add: push_log_def Let_def)

lemma push_log_short: "length ls < 100 \<Longrightarrow> push_log e ls = ls @ [e]"
  by (simp add: push_log_def Let_def)

lemma push_log_full: "length ls = 100 \<Longrightarrow> push_log e ls = tl ls @ [e]"
  by (cases ls) (simp_all add: push_log_def Let_def)

lemma log_msg_None: "map_of (accounts s) i = None \<Longrightarrow> log_msg now i m s = s"
  by (simp add: log_msg_def)

lemma log_msg_Some:
  "map_of (accounts s) i = Some a \<Longrightarrow>
   log_msg now i m s =
     emit_update (s\<lparr>accounts := AList.update i
        (a\<lparr>logs := push_log (stamp now m) (logs a)\<rparr>) (accounts s)\<rparr>)"
  by (simp add: log_msg_def)

lemma emit_update_fields [simp]:
  "accounts (emit_update s) = accounts s" "bots (emit_update s) = bots s"
  "db (emit_update s) = db s" "trace (emit_update s) = trace s @ [Update (getAccounts s)]"
  by (simp_all add: emit_update_def)

lemma call_fields [simp]:
  "accounts (call e s) = accounts s" "bots (call e s) = bots s"
  "db (call e s) = db s" "trace (call e s) = trace s @ [e]"
  by (simp_all add: call_def)

lemma getAccounts_emit [simp]: "getAccounts (emit_update s) = getAccounts s"
  by (simp add: getAccounts_def)

lemma getAccounts_call [simp]: "getAccounts (call e s) = getAccounts s"
  by (simp add: getAccounts_def)

lemma log_msg_frame [simp]:
  "bots (log_msg now i m s) = bots s" "db (log_msg now i m s) = db s"
  "map fst (accounts (log_msg now i m s)) = map fst (accounts s)"
  by (auto simp: log_msg_def keys_update_present split: option.splits)

lemma log_msg_lookup:
  "map_of (accounts (log_msg now i m s)) j =
     (if j = i
      then map_option (\<lambda>a. a\<lparr>logs := push_log (stamp now m) (logs a)\<rparr>)
             (map_of (accounts s) i)
      else map_of (accounts s) j)"
  by (auto simp: log_msg_def update_conv' split: option.splits)

lemma logs_bounded_update:
  "logs_bounded s \<Longrightarrow> length (logs a) \<le> 100 \<Longrightarrow>
   logs_bounded (s\<lparr>accounts := AList.update i a (accounts s)\<rparr>)"
  using set_update_subset [of i a "accounts s"]
  by (auto simp: logs_bounded_def getAccounts_def)

lemma logs_bounded_lookup:
  "logs_bounded s \<Longrightarrow> map_of (accounts s) i = Some a \<Longrightarrow> length (logs a) \<le> 100"
  by (auto simp: logs_bounded_def getAccounts_def dest!: map_of_SomeD intro: rev_image_eqI)

lemma logs_bounded_emit [simp]: "logs_bounded (emit_update s) = logs_bounded s"
  by (simp add: logs_bounded_def)

lemma logs_bounded_call [simp]: "logs_bounded (call e s) = logs_bounded s"
  by (simp add: logs_bounded_def)

lemma logs_bounded_log_msg: "logs_bounded s \<Longrightarrow> logs_bounded (log_msg now i m s)"
  by (cases "map_of (accounts s) i")
     (simp_all add: log_msg_None log_msg_Some logs_bounded_update logs_bounded_lookup
        length_push_log)

subsection \<open>Frames of the handlers\<close>

lemma set_status_None: "map_of (accounts s) i = None \<Longrightarrow> set_status i v s = s"
  by (simp add: set_status_def)

lemma set_status_Some:
  "map_of (accounts s) i = Some a \<Longrightarrow>
   set_status i v s = s\<lparr>accounts := AList.update i (a\<lparr>status := v\<rparr>) (accounts s)\<rparr>"
  by (simp add: set_status_def)

lemma set_status_frame [simp]:
  "bots (set_status i v s) = bots s" "db (set_status i v s) = db s"
  "trace (set_status i v s) = trace s"
  "map fst (accounts (set_status i v s)) = map fst (accounts s)"
  by (auto simp: set_status_def keys_update_present split: option.splits)

lemma set_status_lookup:
  "map_of (accounts (set_status i v s)) j =
     (if j = i then map_option (\<lambda>a. a\<lparr>status := v\<rparr>) (map_of (accounts s) i)
      else map_of (accounts s) j)"
  by (auto simp: set_status_def update_conv' split: option.splits)

lemma logs_bounded_set_status: "logs_bounded s \<Longrightarrow> logs_bounded (set_status i v s)"
  by (cases "map_of (accounts s) i")
     (simp_all add: set_status_None set_status_Some logs_bounded_update logs_bounded_lookup)

lemma merge_stat_frame [simp]:
  "bots (merge_stat i k v s) = bots s" "db (merge_stat i k v s) = db s"
  "map fst (accounts (merge_stat i k v s)) = map fst (accounts s)"
  by (auto simp: merge_stat_def keys_update_present split: option.splits)

lemma logs_bounded_merge_stat: "logs_bounded s \<Longrightarrow> logs_bounded (merge_stat i k v s)"
  by (cases "map_of (accounts s) i")
     (simp_all add: merge_stat_def logs_bounded_update logs_bounded_lookup)

lemma updateStat_frame [simp]:
  "bots (updateStat i raw s) = bots s" "db (updateStat i raw s) = db s"
  "map fst (accounts (updateStat i raw s)) = map fst (accounts s)"
  by (auto simp: updateStat_def split: option.splits)

lemma logs_bounded_updateStat: "logs_bounded s \<Longrightarrow> logs_bounded (updateStat i raw s)"
  by (auto simp: updateStat_def logs_bounded_merge_stat split: option.splits)

lemma logs_updateNumericStat [simp]:
  "logs (fst (updateNumericStat str k l a)) = logs a"
  by (simp add: updateNumericStat_def Let_def split: option.splits prod.splits)

lemma scoreUpdated_frame [simp]:
  "bots (scoreUpdated i item s) = bots s" "db (scoreUpdated i item s) = db s"
  "map fst (accounts (scoreUpdated i item s)) = map fst (accounts s)"
  by (auto simp: scoreUpdated_def Let_def keys_update_present split: option.splits prod.splits)

lemma logs_bounded_scoreUpdated:
  assumes b: "logs_bounded s"
  shows "logs_bounded (scoreUpdated i item s)"
proof (cases "map_of (accounts s) i")
  case None
  then show ?thesis using b
    by (simp add: scoreUpdated_def split: option.splits)
next
  case acc: (Some a)
  show ?thesis
  proof (cases item)
    case None
    then show ?thesis using b by (simp add: scoreUpdated_def)
  next
    case (Some str)
    let ?t = "strip_codes colour_code str"
    let ?a2 = "fst (updateNumericStat ?t ''money'' ''Money''
                 (fst (updateNumericStat ?t ''shards'' ''Shards'' a)))"
    have "length (logs ?a2) \<le> 100"
      using b acc by (simp add: logs_bounded_lookup)
    with b have "logs_bounded (s\<lparr>accounts := AList.update i ?a2 (accounts s)\<rparr>)"
      by (rule logs_bounded_update)
    then show ?thesis
      using Some acc
      by (simp add: scoreUpdated_def Let_def case_prod_beta)
  qed
qed

lemma set_score_frame [simp]:
  "bots (set_score i es s) = bots s" "db (set_score i es s) = db s"
  "map fst (accounts (set_score i es s)) = map fst (accounts s)"
  by (induction es arbitrary: s; simp add: set_score_def)+

lemma logs_bounded_set_score: "logs_bounded s \<Longrightarrow> logs_bounded (set_score i es s)"
  by (induction es arbitrary: s) (simp_all add: set_score_def logs_bounded_updateStat)

lemma on_join_frame [simp]:
  "bots (on_join now m i s) = bots s" "db (on_join now m i s) = db s"
  "map fst (accounts (on_join now m i s)) = map fst (accounts s)"
  by (auto simp: on_join_def split: option.splits)

lemma on_error_frame [simp]:
  "bots (on_error now m i s) = bots s" "db (on_error now m i s) = db s"
  "map fst (accounts (on_error now m i s)) = map fst (accounts s)"
  by (auto simp: on_error_def)

lemma on_end_frame [simp]:
  "bots (on_end now m i s) = bots s" "db (on_end now m i s) = db s"
  "map fst (accounts (on_end now m i s)) = map fst (accounts s)"
  by (auto simp: on_end_def)

lemma logs_bounded_handlers:
  "logs_bounded s \<Longrightarrow> logs_bounded (on_join now m i s)"
  "logs_bounded s \<Longrightarrow> logs_bounded (on_error now m i s)"
  "logs_bounded s \<Longrightarrow> logs_bounded (on_end now m i s)"
  by (auto simp: on_join_def on_error_def on_end_def logs_bounded_log_msg
        logs_bounded_set_status split: option.splits)

subsection \<open>Connecting, removing and adding keep the logs bounded\<close>

lemma connectJava_eq:
  "connectJava now outcome i u s =
     (case outcome of
        Opened h \<Rightarrow> Inr ((call (CreateBot u) s)\<lparr>bots := AList.update i h (bots s)\<rparr>)
      | Threw msg \<Rightarrow> Inr (log_msg now i (''Connection failed: '' @ msg) (call (CreateBot u) s)))"
  by (simp add: connectJava_def try_connectJava_def Let_def split: open_result.splits)

lemma connectBedrock_eq:
  "connectBedrock now outcome i u s =
     (case outcome of
        Opened h \<Rightarrow> Inr ((call (CreateClient u) s)\<lparr>bots := AList.update i h (bots s)\<rparr>)
      | Threw msg \<Rightarrow>
          Inr (log_msg now i (''Bedrock Connection failed: '' @ msg) (call (CreateClient u) s)))"
  by (simp add: connectBedrock_def try_connectBedrock_def Let_def split: open_result.splits)

lemma state_of_simps [simp]: "state_of (Inr s) = s" "state_of (Inl (e, s)) = s"
  by (simp_all add: state_of_def)

lemma logs_bounded_bots [simp]: "logs_bounded (s\<lparr>bots := b\<rparr>) = logs_bounded s"
  by (simp add: logs_bounded_def getAccounts_def)

lemma logs_bounded_db [simp]: "logs_bounded (s\<lparr>db := d\<rparr>) = logs_bounded s"
  by (simp add: logs_bounded_def getAccounts_def)

lemma connectJava_frame [simp]:
  "db (state_of (connectJava now outcome i u s)) = db s"
  "map fst (accounts (state_of (connectJava now outcome i u s))) = map fst (accounts s)"
  by (simp_all add: connectJava_eq split: open_result.splits)

lemma connectBedrock_frame [simp]:
  "db (state_of (connectBedrock now outcome i u s)) = db s"
  "map fst (accounts (state_of (connectBedrock now outcome i u s))) = map fst (accounts s)"
  by (simp_all add: connectBedrock_eq split: open_result.splits)

lemma logs_bounded_connectJava:
  "logs_bounded s \<Longrightarrow> logs_bounded (state_of (connectJava now outcome i u s))"
  by (simp add: connectJava_eq logs_bounded_log_msg split: open_result.splits)

lemma logs_bounded_connectBedrock:
  "logs_bounded s \<Longrightarrow> logs_bounded (state_of (connectBedrock now outcome i u s))"
  by (simp add: connectBedrock_eq logs_bounded_log_msg split: open_result.splits)

lemma connectBot_frame [simp]:
  "db (state_of (connectBot ip now now' outcome i s)) = db s"
  "map fst (accounts (state_of (connectBot ip now now' outcome i s))) = map fst (accounts s)"
  by (simp_all add: connectBot_def Let_def split: option.splits)

lemma logs_bounded_connectBot:
  "logs_bounded s \<Longrightarrow> logs_bounded (state_of (connectBot ip now now' outcome i s))"
  by (simp add: connectBot_def Let_def logs_bounded_connectJava logs_bounded_connectBedrock
        logs_bounded_log_msg logs_bounded_set_status split: option.splits)

lemma disconnectBot_frame [simp]:
  "db (disconnectBot now i s) = db s"
  "map fst (accounts (disconnectBot now i s)) = map fst (accounts s)"
  by (simp_all add: disconnectBot_def Let_def split: option.splits)

lemma logs_bounded_disconnectBot: "logs_bounded s \<Longrightarrow> logs_bounded (disconnectBot now i s)"
  by (simp add: disconnectBot_def Let_def logs_bounded_log_msg split: option.splits)

lemma logs_bounded_delete:
  "logs_bounded s \<Longrightarrow> logs_bounded (s\<lparr>accounts := AList.delete i (accounts s)\<rparr>)"
  by (auto simp: logs_bounded_def getAccounts_def AList.delete_eq)

lemma logs_bounded_accounts_cong:
  "accounts s' = accounts s \<Longrightarrow> logs_bounded s' = logs_bounded s"
  by (simp add: logs_bounded_def getAccounts_def)

lemma logs_bounded_removeAccount:
  assumes "logs_bounded s"
  shows "logs_bounded (removeAccount now i s)"
proof -
  let ?d = "disconnectBot now i s"
  have "logs_bounded (?d\<lparr>accounts := AList.delete i (accounts ?d)\<rparr>)"
    using assms by (intro logs_bounded_delete logs_bounded_disconnectBot)
  moreover have "accounts (removeAccount now i s) = AList.delete i (accounts ?d)"
    by (simp add: removeAccount_def Let_def)
  ultimately show ?thesis
    by (simp add: logs_bounded_accounts_cong [of "removeAccount now i s"
          "?d\<lparr>accounts := AList.delete i (accounts ?d)\<rparr>"])
qed

lemma logs_bounded_addAccount:
  assumes "logs_bounded s"
  shows "logs_bounded (state_of (addAccount i u t s))"
proof (cases "db_insert \<lparr>row_id = i, row_username = u, row_type = t\<rparr> (db s)")
  case (Inl e)
  then show ?thesis using assms by (simp add: addAccount_def)
next
  case (Inr tbl)
  have "logs_bounded (s\<lparr>accounts := AList.update i (fresh_account i u t) (accounts s)\<rparr>)"
    using assms by (rule logs_bounded_update) (simp add: fresh_account_def)
  then show ?thesis
    using Inr
    by (simp add: addAccount_def logs_bounded_accounts_cong
          [of "s\<lparr>db := tbl, accounts := AList.update i (fresh_account i u t) (accounts s)\<rparr>"
              "s\<lparr>accounts := AList.update i (fresh_account i u t) (accounts s)\<rparr>"])
qed

lemma logs_bounded_step: "logs_bounded s \<Longrightarrow> logs_bounded (step c s)"
  by (cases c)
     (simp_all add: logs_bounded_addAccount logs_bounded_removeAccount logs_bounded_log_msg
        logs_bounded_connectBot logs_bounded_disconnectBot logs_bounded_updateStat
        logs_bounded_scoreUpdated logs_bounded_set_score logs_bounded_handlers)

lemma logs_bounded_run: "logs_bounded s \<Longrightarrow> logs_bounded (run cs s)"
  by (induction cs arbitrary: s) (simp_all add: run_def logs_bounded_step)

lemma loadAccounts_fold:
  "accounts (fold (\<lambda>row m. m\<lparr>accounts :=
             AList.update (row_id row)
               (fresh_account (row_id row) (row_username row) (row_type row)) (accounts m)\<rparr>)
       rows s) =
   fold (\<lambda>row al. AList.update (row_id row)
               (fresh_account (row_id row) (row_username row) (row_type row)) al) rows
     (accounts s)"
  by (induction rows arbitrary: s) simp_all

lemma logs_bounded_load:
  "logs_bounded s \<Longrightarrow>
   logs_bounded (fold (\<lambda>row m. m\<lparr>accounts :=
             AList.update (row_id row)
               (fresh_account (row_id row) (row_username row) (row_type row)) (accounts m)\<rparr>)
       rows s)"
  by (induction rows arbitrary: s) (simp_all add: logs_bounded_update fresh_account_def)

lemma logs_bounded_new_manager: "logs_bounded (new_manager rows)"
proof -
  have "logs_bounded \<lparr>bots = [], accounts = [], db = rows, trace = []\<rparr>"
    by (simp add: logs_bounded_def getAccounts_def)
  then show ?thesis
    unfolding new_manager_def loadAccounts_def manager.simps by (rule logs_bounded_load)
qed

subsection \<open>The table and its mirror\<close>

lemma row_id_db_delete: "map row_id (db_delete i tbl) = removeAll i (map row_id tbl)"
  by (induction tbl) (auto simp: db_delete_def)

lemma consistent_removeAccount: "consistent s \<Longrightarrow> consistent (removeAccount now i s)"
  by (simp add: consistent_def removeAccount_def Let_def row_id_db_delete delete_keys
        distinct_removeAll)

lemma consistent_addAccount: "consistent s \<Longrightarrow> consistent (state_of (addAccount i u t s))"
  by (auto simp: consistent_def addAccount_def db_insert_def update_keys)

lemma consistent_step: "consistent s \<Longrightarrow> consistent (step c s)"
  by (cases c)
     (simp_all add: consistent_removeAccount consistent_addAccount, simp_all add: consistent_def)

lemma consistent_run: "consistent s \<Longrightarrow> consistent (run cs s)"
  by (induction cs arbitrary: s) (simp_all add: run_def consistent_step)

lemma keys_load:
  "distinct (map fst al @ map row_id rows) \<Longrightarrow>
   map fst (fold (\<lambda>row al. AList.update (row_id row)
               (fresh_account (row_id row) (row_username row) (row_type row)) al) rows al) =
   map fst al @ map row_id rows"
proof (induction rows arbitrary: al)
  case Nil
  then show ?case by simp
next
  case (Cons r rows)
  let ?al = "AList.update (row_id r)
               (fresh_account (row_id r) (row_username r) (row_type r)) al"
  have k: "map fst ?al = map fst al @ [row_id r]"
    using Cons.prems by (auto simp: update_keys)
  have "distinct (map fst ?al @ map row_id rows)"
    using Cons.prems by (auto simp: k)
  from Cons.IH [OF this] show ?case by (simp add: k)
qed

lemma db_load:
  "db (fold (\<lambda>row m. m\<lparr>accounts :=
             AList.update (row_id row)
               (fresh_account (row_id row) (row_username row) (row_type row)) (accounts m)\<rparr>)
       rows s) = db s"
  by (induction rows arbitrary: s) simp_all

lemma consistent_new_manager:
  "distinct (map row_id rows) \<Longrightarrow> consistent (new_manager rows)"
  using keys_load [of "[]" rows]
  by (simp add: consistent_def new_manager_def loadAccounts_def loadAccounts_fold db_load)

subsection \<open>The log is a ring of 100 entries\<close>

lemma offline_manager_eq:
  "offline_manager =
     \<lparr>bots = [], accounts = [(''a'', fresh_account ''a'' ''u'' Java)],
      db = [\<lparr>row_id = ''a'', row_username = ''u'', row_type = Java\<rparr>],
      trace = [Update [fresh_account ''a'' ''u'' Java]]\<rparr>"
  by (simp add: offline_manager_def addAccount_def new_manager_def loadAccounts_def
        db_insert_def emit_update_def getAccounts_def)

lemma run_Cons [simp]: "run (c # cs) s = run cs (step c s)"
  by (simp add: run_def)

lemma run_Nil [simp]: "run [] s = s"
  by (simp add: run_def)

lemma run_logs:
  "map_of (accounts s) i = Some a \<Longrightarrow> length (logs a) + n \<le> 100 \<Longrightarrow>
   map_of (accounts (run (replicate n (Log now i m)) s)) i =
     Some (a\<lparr>logs := logs a @ replicate n (stamp now m)\<rparr>)"
proof (induction n arbitrary: s a)
  case 0
  then show ?case by simp
next
  case (Suc n)
  let ?a = "a\<lparr>logs := logs a @ [stamp now m]\<rparr>"
  have "map_of (accounts (log_msg now i m s)) i = Some ?a"
    using Suc.prems by (simp add: log_msg_lookup push_log_short)
  moreover have "length (logs ?a) + n \<le> 100"
    using Suc.prems by simp
  ultimately have "map_of (accounts (run (replicate n (Log now i m)) (log_msg now i m s))) i =
     Some (?a\<lparr>logs := logs ?a @ replicate n (stamp now m)\<rparr>)"
    by (rule Suc.IH)
  then show ?case
    by (simp add: replicate_app_Cons_same)
qed

lemma full_manager_account: "map_of (accounts full_manager) ''a'' = Some full_account"
proof -
  have "map_of (accounts (log_msg ''11:00:00'' ''a'' ''first'' offline_manager)) ''a'' =
          Some ((fresh_account ''a'' ''u'' Java)\<lparr>logs := [stamp ''11:00:00'' ''first'']\<rparr>)"
    by (simp add: log_msg_lookup offline_manager_eq push_log_def fresh_account_def)
  from run_logs [OF this, of 99 "''11:00:01''" "''later''"] show ?thesis
    by (simp add: full_manager_def full_account_def)
qed

lemma logs_bounded_full_manager: "logs_bounded full_manager"
  unfolding full_manager_def
  by (rule logs_bounded_run) (simp add: logs_bounded_def getAccounts_def offline_manager_eq
        fresh_account_def)

text \<open>
  C1. From the constructor on, whatever the manager is asked to do, no log holds more than
  100 entries. A log append to an account replaces its log by the log with the stamped
  message at the end, and when the log was full (100 entries) its first, oldest entry is
  dropped and the others keep their order.
\<close>

theorem log_ring_buffer:
  assumes bounded: "logs_bounded s" and acc: "map_of (accounts s) i = Some a"
  shows "logs_bounded (run cs (new_manager rows)) \<and> logs_bounded (run cs s) \<and>
         length (logs a) \<le> 100 \<and>
         map_of (accounts (log_msg now i m s)) i =
           Some (a\<lparr>logs := (if length (logs a) = 100
                             then tl (logs a) @ [stamp now m]
                             else logs a @ [stamp now m])\<rparr>)"
proof -
  have len: "length (logs a) \<le> 100"
    using bounded acc by (rule logs_bounded_lookup)
  have "push_log (stamp now m) (logs a) =
          (if length (logs a) = 100 then tl (logs a) @ [stamp now m]
           else logs a @ [stamp now m])"
    using len by (simp add: push_log_full push_log_short)
  then have "map_of (accounts (log_msg now i m s)) i =
           Some (a\<lparr>logs := (if length (logs a) = 100
                             then tl (logs a) @ [stamp now m]
                             else logs a @ [stamp now m])\<rparr>)"
    using acc by (simp add: log_msg_lookup)
  then show ?thesis
    using len bounded by (simp add: logs_bounded_run logs_bounded_new_manager)
qed


theorem log_ring_buffer_witness:
  "logs_bounded full_manager \<and> map_of (accounts full_manager) ''a'' = Some full_account \<and>
   logs full_account =
     stamp ''11:00:00'' ''first'' # replicate 99 (stamp ''11:00:01'' ''later'') \<and>
   length (logs full_account) = 100 \<and>
   map_of (accounts (log_msg ''12:00:00'' ''a'' ''hello'' full_manager)) ''a'' =
     Some (full_account\<lparr>logs := replicate 99 (stamp ''11:00:01'' ''later'') @
                                  [stamp ''12:00:00'' ''hello'']\<rparr>)"
proof -
  note b = logs_bounded_full_manager
  note a = full_manager_account
  have l: "logs full_account =
     stamp ''11:00:00'' ''first'' # replicate 99 (stamp ''11:00:01'' ''later'')"
    by (simp add: full_account_def)
  have n: "length (logs full_account) = 100"
    by (simp add: l)
  have "map_of (accounts (log_msg ''12:00:00'' ''a'' ''hello'' full_manager)) ''a'' =
     Some (full_account\<lparr>logs := replicate 99 (stamp ''11:00:01'' ''later'') @
                                  [stamp ''12:00:00'' ''hello'']\<rparr>)"
    using log_ring_buffer [OF b a, of "[]" "[]" "''12:00:00''" "''hello''"] n
    by (simp add: l)
  with b a l n show ?thesis
    by (intro conjI)
qed

subsection \<open>The number after a label\<close>

lemma not_digit_dot [simp]: "\<not> is_digit CHR ''.''"
  by (simp add: is_digit_def)

lemma not_digit_kmb: "k \<in> set ''kmb'' \<Longrightarrow> \<not> is_digit k"
  by (auto simp: is_digit_def)



lemma takeWhile_all_digits [simp]: "\<forall>c\<in>set ds. is_digit c \<Longrightarrow> takeWhile is_digit ds = ds"
  by (simp add: takeWhile_eq_all_conv)

lemma dropWhile_all_digits [simp]: "\<forall>c\<in>set ds. is_digit c \<Longrightarrow> dropWhile is_digit ds = []"
  by simp



lemma match_number_some_digit:
  "match_number t = Some (m1, sfx) \<Longrightarrow> m1 \<noteq> [] \<and> is_digit (hd m1) \<and> (\<exists>c\<in>set t. is_digit c)"
  by (induction t) (auto simp: Let_def split: if_splits)





subsection \<open>The stat extractor\<close>


lemma extract_stat_no_label:
  "find (\<lambda>l. includes_js (clean_text raw) l) labels = None \<Longrightarrow> extract_stat raw = None"
  by (simp add: extract_stat_def)





subsection \<open>Merging a value into the statistics\<close>

lemma get_put_stat [simp]: "get_stat key (put_stat key v st) = v"
  by (simp add: get_stat_def put_stat_def)

lemma put_stat_same [simp]: "put_stat key (get_stat key st) st = st"
  by (simp add: get_stat_def put_stat_def)

lemma get_shards_put_money [simp]:
  "get_stat ''shards'' (put_stat ''money'' v st) = get_stat ''shards'' st"
  by (simp add: get_stat_def put_stat_def)













subsection \<open>Merging twice\<close>



subsection \<open>Adding an id twice, removing an absent id\<close>

lemma update_fresh: "k \<notin> fst ` set al \<Longrightarrow> AList.update k v al = al @ [(k, v)]"
  by (induction al) auto

lemma delete_absent: "k \<notin> fst ` set al \<Longrightarrow> AList.delete k al = al"
  by (induction al) auto

lemma db_delete_absent: "i \<notin> row_id ` set tbl \<Longrightarrow> db_delete i tbl = tbl"
  by (induction tbl) (auto simp: db_delete_def)

lemma consistent_keys: "consistent s \<Longrightarrow> row_id ` set (db s) = fst ` set (accounts s)"
  by (metis consistent_def list.set_map)

lemma snapshots_append [simp]: "snapshots (xs @ ys) = snapshots xs @ snapshots ys"
  by (induction xs rule: snapshots.induct) simp_all

lemma map_of_absent: "k \<notin> fst ` set al \<Longrightarrow> map_of al k = None"
  by (simp add: map_of_eq_None_iff)

text \<open>
  C4. In a manager whose table and mirror agree, \<open>addAccount\<close> with an id that is present
  raises \<open>DuplicateId\<close> and leaves the manager as it was: table, accounts, connections
  and trace, so nothing is emitted. With an id that is not present it appends the row to
  the table, appends an account with status \<open>Offline\<close>, no logs and all four statistics
  zero to the accounts, and emits one snapshot of the new list. Every run that starts on
  a table without a repeated id keeps the table and the mirror in agreement.
\<close>

theorem addAccount_duplicate_id:
  assumes ok: "consistent s"
  shows "(i \<in> fst ` set (accounts s) \<longrightarrow> addAccount i u t s = Inl (DuplicateId, s)) \<and>
         (i \<notin> fst ` set (accounts s) \<longrightarrow>
            addAccount i u t s =
              Inr (s\<lparr>db := db s @ [\<lparr>row_id = i, row_username = u, row_type = t\<rparr>],
                     accounts := accounts s @ [(i, fresh_account i u t)],
                     trace := trace s @ [Update (getAccounts s @ [fresh_account i u t])]\<rparr>)) \<and>
         fresh_account i u t =
           \<lparr>acc_id = i, username = u, btype = t, status = Offline, logs = [],
            accountData = \<lparr>shards = 0, money = 0, kills = 0, deaths = 0\<rparr>\<rparr> \<and>
         (distinct (map row_id rows) \<longrightarrow> consistent (run cs (new_manager rows)))"
proof -
  have keys: "row_id ` set (db s) = fst ` set (accounts s)"
    using ok by (rule consistent_keys)
  have dup: "addAccount i u t s = Inl (DuplicateId, s)" if "i \<in> fst ` set (accounts s)"
    using that keys by (simp add: addAccount_def db_insert_def)
  have new: "addAccount i u t s =
              Inr (s\<lparr>db := db s @ [\<lparr>row_id = i, row_username = u, row_type = t\<rparr>],
                     accounts := accounts s @ [(i, fresh_account i u t)],
                     trace := trace s @ [Update (getAccounts s @ [fresh_account i u t])]\<rparr>)"
    if "i \<notin> fst ` set (accounts s)"
    using that keys
    by (simp add: addAccount_def db_insert_def update_fresh emit_update_def getAccounts_def)
  have inv: "consistent (run cs (new_manager rows))" if "distinct (map row_id rows)"
    using that by (intro consistent_run consistent_new_manager)
  show ?thesis
    using dup new inv by (simp add: fresh_account_def zero_stats_def)
qed

theorem addAccount_duplicate_id_witness:
  "consistent offline_manager \<and> ''a'' \<in> fst ` set (accounts offline_manager) \<and>
   addAccount ''a'' ''v'' Bedrock offline_manager = Inl (DuplicateId, offline_manager) \<and>
   ''b'' \<notin> fst ` set (accounts offline_manager) \<and>
   addAccount ''b'' ''v'' Bedrock offline_manager =
     Inr \<lparr>bots = [],
          accounts = [(''a'', fresh_account ''a'' ''u'' Java), (''b'', fresh_account ''b'' ''v'' Bedrock)],
          db = [\<lparr>row_id = ''a'', row_username = ''u'', row_type = Java\<rparr>,
                \<lparr>row_id = ''b'', row_username = ''v'', row_type = Bedrock\<rparr>],
          trace = [Update [fresh_account ''a'' ''u'' Java],
                   Update [fresh_account ''a'' ''u'' Java, fresh_account ''b'' ''v'' Bedrock]]\<rparr>"
proof -
  have c: "consistent offline_manager"
    by (simp add: consistent_def offline_manager_eq)
  have a: "''a'' \<in> fst ` set (accounts offline_manager)"
    by (simp add: offline_manager_eq)
  have b: "''b'' \<notin> fst ` set (accounts offline_manager)"
    by (simp add: offline_manager_eq)
  have dup: "addAccount ''a'' ''v'' Bedrock offline_manager = Inl (DuplicateId, offline_manager)"
    using addAccount_duplicate_id [OF c, of "''a''" "''v''" Bedrock "[]" "[]"] a by blast
  have "addAccount ''b'' ''v'' Bedrock offline_manager =
          Inr (offline_manager
                 \<lparr>db := db offline_manager @ [\<lparr>row_id = ''b'', row_username = ''v'', row_type = Bedrock\<rparr>],
                  accounts := accounts offline_manager @ [(''b'', fresh_account ''b'' ''v'' Bedrock)],
                  trace := trace offline_manager @
                    [Update (getAccounts offline_manager @ [fresh_account ''b'' ''v'' Bedrock])]\<rparr>)"
    using addAccount_duplicate_id [OF c, of "''b''" "''v''" Bedrock "[]" "[]"] b by blast
  then have new: "addAccount ''b'' ''v'' Bedrock offline_manager =
     Inr \<lparr>bots = [],
          accounts = [(''a'', fresh_account ''a'' ''u'' Java), (''b'', fresh_account ''b'' ''v'' Bedrock)],
          db = [\<lparr>row_id = ''a'', row_username = ''u'', row_type = Java\<rparr>,
                \<lparr>row_id = ''b'', row_username = ''v'', row_type = Bedrock\<rparr>],
          trace = [Update [fresh_account ''a'' ''u'' Java],
                   Update [fresh_account ''a'' ''u'' Java, fresh_account ''b'' ''v'' Bedrock]]\<rparr>"
    by (simp add: offline_manager_eq getAccounts_def)
  show ?thesis
    using c a b dup new by blast
qed

lemma disconnectBot_no_handle: "map_of (bots s) i = None \<Longrightarrow> disconnectBot now i s = s"
  by (simp add: disconnectBot_def)

lemma disconnectBot_orphan:
  "map_of (bots s) i = Some h \<Longrightarrow> map_of (accounts s) i = None \<Longrightarrow>
   disconnectBot now i s = s\<lparr>trace := trace s @ [Close h], bots := AList.delete i (bots s)\<rparr>"
  by (simp add: disconnectBot_def Let_def log_msg_None call_def)

text \<open>
  C10. In a manager whose table and mirror agree, \<open>removeAccount\<close> with an id that is not
  among the accounts leaves the accounts and the table as they were, and still emits one
  snapshot, of the unchanged list. (It is the only emission: were a connection stored
  under the id, it would be closed, with no log and no snapshot.) The table and the
  mirror agree in every run that starts on a table without a repeated id.
\<close>

theorem removeAccount_absent:
  assumes ok: "consistent s" and absent: "i \<notin> fst ` set (accounts s)"
  shows "accounts (removeAccount now i s) = accounts s \<and>
         db (removeAccount now i s) = db s \<and>
         snapshots (trace (removeAccount now i s)) = snapshots (trace s) @ [getAccounts s] \<and>
         trace (removeAccount now i s) =
           trace s @ (case map_of (bots s) i of None \<Rightarrow> [] | Some h \<Rightarrow> [Close h]) @
           [Update (getAccounts s)] \<and>
         (distinct (map row_id rows) \<longrightarrow> consistent (run cs (new_manager rows)))"
proof -
  have inv: "consistent (run cs (new_manager rows))" if "distinct (map row_id rows)"
    using that by (intro consistent_run consistent_new_manager)
  have none: "map_of (accounts s) i = None"
    using absent by (rule map_of_absent)
  have tbl: "i \<notin> row_id ` set (db s)"
    using ok absent by (simp add: consistent_keys)
  let ?d = "disconnectBot now i s"
  have d: "accounts ?d = accounts s \<and> db ?d = db s \<and>
           trace ?d = trace s @ (case map_of (bots s) i of None \<Rightarrow> [] | Some h \<Rightarrow> [Close h])"
    using none
    by (cases "map_of (bots s) i") (simp_all add: disconnectBot_no_handle disconnectBot_orphan)
  have acc: "accounts (removeAccount now i s) = accounts s"
    using d absent by (simp add: removeAccount_def Let_def delete_absent)
  have tab: "db (removeAccount now i s) = db s"
    using d tbl by (simp add: removeAccount_def Let_def db_delete_absent)
  have tr: "trace (removeAccount now i s) =
           trace s @ (case map_of (bots s) i of None \<Rightarrow> [] | Some h \<Rightarrow> [Close h]) @
           [Update (getAccounts s)]"
    using d absent by (simp add: removeAccount_def Let_def delete_absent getAccounts_def)
  have "snapshots (trace (removeAccount now i s)) = snapshots (trace s) @ [getAccounts s]"
    unfolding tr by (simp split: option.splits)
  with acc tab tr inv show ?thesis by blast
qed

theorem removeAccount_absent_witness:
  "consistent offline_manager \<and> ''b'' \<notin> fst ` set (accounts offline_manager) \<and>
   accounts (removeAccount ''12:00:00'' ''b'' offline_manager) = accounts offline_manager \<and>
   db (removeAccount ''12:00:00'' ''b'' offline_manager) = db offline_manager \<and>
   trace (removeAccount ''12:00:00'' ''b'' offline_manager) =
     [Update [fresh_account ''a'' ''u'' Java], Update [fresh_account ''a'' ''u'' Java]]"
proof -
  have c: "consistent offline_manager"
    by (simp add: consistent_def offline_manager_eq)
  have b: "''b'' \<notin> fst ` set (accounts offline_manager)"
    by (simp add: offline_manager_eq)
  note t = removeAccount_absent [OF c b, of "''12:00:00''" "[]" "[]"]
  have "trace (removeAccount ''12:00:00'' ''b'' offline_manager) =
     [Update [fresh_account ''a'' ''u'' Java], Update [fresh_account ''a'' ''u'' Java]]"
    using t by (simp add: offline_manager_eq getAccounts_def)
  with t c b show ?thesis by blast
qed

subsection \<open>The snapshots of a mutation\<close>

lemma connected_manager_eq:
  "connected_manager =
     \<lparr>bots = [(''a'', 7)],
      accounts = [(''a'', (fresh_account ''a'' ''u'' Java)
                    \<lparr>status := Connecting,
                     logs := [''[12:00:00] Connecting to mc.example.org (java)...'']\<rparr>)],
      db = [\<lparr>row_id = ''a'', row_username = ''u'', row_type = Java\<rparr>],
      trace = [Update [fresh_account ''a'' ''u'' Java],
               Update [(fresh_account ''a'' ''u'' Java)\<lparr>status := Connecting\<rparr>],
               Update [(fresh_account ''a'' ''u'' Java)
                    \<lparr>status := Connecting,
                     logs := [''[12:00:00] Connecting to mc.example.org (java)...'']\<rparr>],
               CreateBot ''u'']\<rparr>"
  by (simp add: connected_manager_def offline_manager_eq connectBot_def set_status_def
        fresh_account_def emit_update_def getAccounts_def log_msg_def push_log_def
        type_name_def connectJava_eq call_def Let_def stamp_def connecting_def)

lemma log_msg_trace:
  "map_of (accounts s) i = Some a \<Longrightarrow>
   trace (log_msg now i m s) = trace s @ [Update (getAccounts (log_msg now i m s))]"
  by (simp add: log_msg_Some getAccounts_def)











subsection \<open>One snapshot for each mutation, two for the removal of a connected account\<close>




subsection \<open>Connecting\<close>

lemma connectBot_skip:
  "map_of (accounts s) i = None \<or> map_option status (map_of (accounts s) i) = Some Online \<Longrightarrow>
   connectBot ip now now' outcome i s = Inr s"
  by (auto simp: connectBot_def split: option.splits)

text \<open>The manager when \<open>connectBot\<close> calls the opener: the status set, the message logged.\<close>

lemma connecting_state:
  assumes a: "map_of (accounts s) i = Some a"
  shows "log_msg now i m (emit_update (set_status i Connecting s)) =
           s\<lparr>accounts := AList.update i
                  (a\<lparr>status := Connecting,
                     logs := push_log (stamp now m) (logs a)\<rparr>) (accounts s),
              trace := trace s @
                [Update (map snd (AList.update i (a\<lparr>status := Connecting\<rparr>) (accounts s))),
                 Update (map snd (AList.update i
                   (a\<lparr>status := Connecting,
                      logs := push_log (stamp now m) (logs a)\<rparr>) (accounts s)))]\<rparr>"
  by (simp add: set_status_Some [OF a] log_msg_def emit_update_def getAccounts_def
        update_conv')

lemma connectBot_run:
  assumes a: "map_of (accounts s) i = Some a" and off: "status a \<noteq> Online"
  shows "connectBot ip now now' outcome i s =
     (let s2 = log_msg now i (connecting ip (btype a))
                 (emit_update (set_status i Connecting s));
          s3 = call (if btype a = Java then CreateBot (username a)
                     else CreateClient (username a)) s2
      in case outcome of
           Opened h \<Rightarrow> Inr (s3\<lparr>bots := AList.update i h (bots s)\<rparr>)
         | Threw msg \<Rightarrow>
             Inr (log_msg now' i
                    ((if btype a = Java then ''Connection failed: ''
                      else ''Bedrock Connection failed: '') @ msg) s3))"
  using a off
  by (simp add: connectBot_def Let_def connectJava_eq connectBedrock_eq
        split: open_result.splits)

subsection \<open>The guard of connectBot\<close>

lemma log_msg_keeps_status:
  "map_of (accounts s) i = Some a \<Longrightarrow> status a = v \<Longrightarrow>
   map_option status (map_of (accounts (log_msg now j m s)) i) = Some v"
  by (auto simp: log_msg_lookup)

text \<open>
  C6. \<open>connectBot\<close> returns the manager as it was (no status, no log, no emission, no call
  of an opener) when there is no account with the id or the account is \<open>Online\<close>.
  Otherwise it sets the status to \<open>Connecting\<close> and emits, appends the message
  "Connecting to ..." to the log and emits, and then calls the opener of the account's
  type: the trace grows by these three entries in this order, followed by what the
  outcome of the opener adds. When the opener returns a connection, it is stored and
  nothing else changes.
\<close>

theorem connectBot_guard:
  "(map_of (accounts s) i = None \<or> map_option status (map_of (accounts s) i) = Some Online \<longrightarrow>
      connectBot ip now now' outcome i s = Inr s) \<and>
   (\<forall>a. map_of (accounts s) i = Some a \<and> status a \<noteq> Online \<longrightarrow>
      (\<exists>s' rest.
         connectBot ip now now' outcome i s = Inr s' \<and>
         trace s' =
           trace s @
           [Update (map snd (AList.update i (a\<lparr>status := Connecting\<rparr>) (accounts s))),
            Update (map snd (AList.update i
              (a\<lparr>status := Connecting,
                 logs := push_log (stamp now (connecting ip (btype a))) (logs a)\<rparr>)
              (accounts s))),
            if btype a = Java then CreateBot (username a) else CreateClient (username a)] @
           rest \<and>
         map_option status (map_of (accounts s') i) = Some Connecting \<and>
         (\<forall>h. outcome = Opened h \<longrightarrow>
            rest = [] \<and> bots s' = AList.update i h (bots s) \<and> db s' = db s \<and>
            accounts s' =
              AList.update i
                (a\<lparr>status := Connecting,
                   logs := push_log (stamp now (connecting ip (btype a))) (logs a)\<rparr>)
                (accounts s))))"
proof (intro conjI allI impI)
  assume "map_of (accounts s) i = None \<or> map_option status (map_of (accounts s) i) = Some Online"
  then show "connectBot ip now now' outcome i s = Inr s"
    by (rule connectBot_skip)
next
  fix a
  assume "map_of (accounts s) i = Some a \<and> status a \<noteq> Online"
  then have a: "map_of (accounts s) i = Some a" and off: "status a \<noteq> Online"
    by auto
  let ?m = "connecting ip (btype a)"
  let ?a = "a\<lparr>status := Connecting, logs := push_log (stamp now ?m) (logs a)\<rparr>"
  let ?s2 = "log_msg now i ?m (emit_update (set_status i Connecting s))"
  let ?open = "if btype a = Java then CreateBot (username a) else CreateClient (username a)"
  let ?s3 = "call ?open ?s2"
  have s2: "?s2 = s\<lparr>accounts := AList.update i ?a (accounts s),
              trace := trace s @
                [Update (map snd (AList.update i (a\<lparr>status := Connecting\<rparr>) (accounts s))),
                 Update (map snd (AList.update i ?a (accounts s)))]\<rparr>"
    using a by (rule connecting_state)
  have run: "connectBot ip now now' outcome i s =
      (case outcome of
           Opened h \<Rightarrow> Inr (?s3\<lparr>bots := AList.update i h (bots s)\<rparr>)
         | Threw msg \<Rightarrow>
             Inr (log_msg now' i
                    ((if btype a = Java then ''Connection failed: ''
                      else ''Bedrock Connection failed: '') @ msg) ?s3))"
    using connectBot_run [OF a off, of ip now now' outcome] unfolding Let_def .
  have l: "map_of (accounts ?s3) i = Some ?a"
    by (simp add: s2 update_conv')
  have t3: "trace ?s3 = trace s @
           [Update (map snd (AList.update i (a\<lparr>status := Connecting\<rparr>) (accounts s))),
            Update (map snd (AList.update i ?a (accounts s))), ?open]"
    by (simp add: s2)
  show "\<exists>s' rest.
         connectBot ip now now' outcome i s = Inr s' \<and>
         trace s' =
           trace s @
           [Update (map snd (AList.update i (a\<lparr>status := Connecting\<rparr>) (accounts s))),
            Update (map snd (AList.update i ?a (accounts s))), ?open] @
           rest \<and>
         map_option status (map_of (accounts s') i) = Some Connecting \<and>
         (\<forall>h. outcome = Opened h \<longrightarrow>
            rest = [] \<and> bots s' = AList.update i h (bots s) \<and> db s' = db s \<and>
            accounts s' = AList.update i ?a (accounts s))"
  proof (cases outcome)
    case (Opened h)
    let ?s' = "?s3\<lparr>bots := AList.update i h (bots s)\<rparr>"
    have c1: "connectBot ip now now' outcome i s = Inr ?s'"
      using run unfolding Opened by simp
    have c2: "trace ?s' = trace s @
           [Update (map snd (AList.update i (a\<lparr>status := Connecting\<rparr>) (accounts s))),
            Update (map snd (AList.update i ?a (accounts s))), ?open] @ []"
      using t3 by simp
    have c3: "map_option status (map_of (accounts ?s') i) = Some Connecting"
      using l by simp
    have c4: "\<forall>h'. outcome = Opened h' \<longrightarrow>
            [] = [] \<and> bots ?s' = AList.update i h' (bots s) \<and> db ?s' = db s \<and>
            accounts ?s' = AList.update i ?a (accounts s)"
      unfolding Opened by (simp add: s2)
    show ?thesis
      using c1 c2 c3 c4
      by (rule_tac x = "?s'" in exI, rule_tac x = "[]" in exI, intro conjI) assumption+
  next
    case (Threw msg)
    let ?f = "(if btype a = Java then ''Connection failed: ''
                      else ''Bedrock Connection failed: '') @ msg"
    let ?s' = "log_msg now' i ?f ?s3"
    have c1: "connectBot ip now now' outcome i s = Inr ?s'"
      using run unfolding Threw by simp
    have c2: "trace ?s' = trace s @
           [Update (map snd (AList.update i (a\<lparr>status := Connecting\<rparr>) (accounts s))),
            Update (map snd (AList.update i ?a (accounts s))), ?open] @
           [Update (getAccounts ?s')]"
      unfolding log_msg_trace [OF l, of now' ?f] t3 by simp
    have c3: "map_option status (map_of (accounts ?s') i) = Some Connecting"
      by (rule log_msg_keeps_status [OF l]) simp
    have c4: "\<forall>h'. outcome = Opened h' \<longrightarrow>
            [Update (getAccounts ?s')] = [] \<and> bots ?s' = AList.update i h' (bots s) \<and>
            db ?s' = db s \<and> accounts ?s' = AList.update i ?a (accounts s)"
      unfolding Threw by simp
    show ?thesis
      using c1 c2 c3 c4
      by (rule_tac x = "?s'" in exI, rule_tac x = "[Update (getAccounts ?s')]" in exI,
          intro conjI) assumption+
  qed
qed

lemma online_manager_status:
  "map_option status (map_of (accounts online_manager) ''a'') = Some Online"
  by (simp add: online_manager_def on_join_def connected_manager_eq set_status_def
        log_msg_def)

theorem connectBot_guard_witness:
  "map_of (accounts offline_manager) ''zz'' = None \<and>
   connectBot ''mc.example.org'' ''12:00:00'' ''12:00:01'' (Opened 7) ''zz'' offline_manager =
     Inr offline_manager \<and>
   map_option status (map_of (accounts online_manager) ''a'') = Some Online \<and>
   connectBot ''mc.example.org'' ''12:00:00'' ''12:00:01'' (Opened 7) ''a'' online_manager =
     Inr online_manager \<and>
   map_of (accounts offline_manager) ''a'' = Some (fresh_account ''a'' ''u'' Java) \<and>
   status (fresh_account ''a'' ''u'' Java) \<noteq> Online \<and>
   (\<exists>s'. connectBot ''mc.example.org'' ''12:00:00'' ''12:00:01'' (Opened 7) ''a''
           offline_manager = Inr s' \<and>
         trace s' =
           trace offline_manager @
           [Update [(fresh_account ''a'' ''u'' Java)\<lparr>status := Connecting\<rparr>],
            Update [(fresh_account ''a'' ''u'' Java)
                      \<lparr>status := Connecting,
                       logs := [''[12:00:00] Connecting to mc.example.org (java)...'']\<rparr>],
            CreateBot ''u''] \<and>
         bots s' = [(''a'', 7)])"
proof -
  have z: "map_of (accounts offline_manager) ''zz'' = None"
    by (simp add: offline_manager_eq)
  have c1: "connectBot ''mc.example.org'' ''12:00:00'' ''12:00:01'' (Opened 7) ''zz''
              offline_manager = Inr offline_manager"
    using connectBot_guard [of offline_manager "''zz''"] z by blast
  note on = online_manager_status
  have c2: "connectBot ''mc.example.org'' ''12:00:00'' ''12:00:01'' (Opened 7) ''a''
              online_manager = Inr online_manager"
    using connectBot_guard [of online_manager "''a''"] on by blast
  have a: "map_of (accounts offline_manager) ''a'' = Some (fresh_account ''a'' ''u'' Java)"
    by (simp add: offline_manager_eq)
  have off: "status (fresh_account ''a'' ''u'' Java) \<noteq> Online"
    by (simp add: fresh_account_def)
  from connectBot_guard [of offline_manager "''a''" "''mc.example.org''" "''12:00:00''"
      "''12:00:01''" "Opened 7"] a off
  obtain s' rest where
    r: "connectBot ''mc.example.org'' ''12:00:00'' ''12:00:01'' (Opened 7) ''a''
           offline_manager = Inr s'" and
    t: "trace s' =
           trace offline_manager @
           [Update (map snd (AList.update ''a''
              ((fresh_account ''a'' ''u'' Java)\<lparr>status := Connecting\<rparr>)
              (accounts offline_manager))),
            Update (map snd (AList.update ''a''
              ((fresh_account ''a'' ''u'' Java)
                 \<lparr>status := Connecting,
                  logs := push_log (stamp ''12:00:00''
                            (connecting ''mc.example.org'' (btype (fresh_account ''a'' ''u'' Java))))
                          (logs (fresh_account ''a'' ''u'' Java))\<rparr>)
              (accounts offline_manager))),
            if btype (fresh_account ''a'' ''u'' Java) = Java
            then CreateBot (username (fresh_account ''a'' ''u'' Java))
            else CreateClient (username (fresh_account ''a'' ''u'' Java))] @ rest" and
    o: "\<forall>h. Opened 7 = Opened h \<longrightarrow>
          rest = [] \<and> bots s' = AList.update ''a'' h (bots offline_manager) \<and>
          db s' = db offline_manager \<and>
          accounts s' = AList.update ''a''
              ((fresh_account ''a'' ''u'' Java)
                 \<lparr>status := Connecting,
                  logs := push_log (stamp ''12:00:00''
                            (connecting ''mc.example.org'' (btype (fresh_account ''a'' ''u'' Java))))
                          (logs (fresh_account ''a'' ''u'' Java))\<rparr>)
              (accounts offline_manager)"
    by blast
  from o have rest: "rest = []" and b: "bots s' = AList.update ''a'' 7 (bots offline_manager)"
    by auto
  have t': "trace s' =
           trace offline_manager @
           [Update [(fresh_account ''a'' ''u'' Java)\<lparr>status := Connecting\<rparr>],
            Update [(fresh_account ''a'' ''u'' Java)
                      \<lparr>status := Connecting,
                       logs := [''[12:00:00] Connecting to mc.example.org (java)...'']\<rparr>],
            CreateBot ''u'']"
    unfolding t rest
    by (simp add: offline_manager_eq fresh_account_def push_log_def stamp_def connecting_def
          type_name_def)
  have b': "bots s' = [(''a'', 7)]"
    unfolding b by (simp add: offline_manager_eq)
  from r t' b' have "\<exists>s'. connectBot ''mc.example.org'' ''12:00:00'' ''12:00:01'' (Opened 7) ''a''
           offline_manager = Inr s' \<and>
         trace s' =
           trace offline_manager @
           [Update [(fresh_account ''a'' ''u'' Java)\<lparr>status := Connecting\<rparr>],
            Update [(fresh_account ''a'' ''u'' Java)
                      \<lparr>status := Connecting,
                       logs := [''[12:00:00] Connecting to mc.example.org (java)...'']\<rparr>],
            CreateBot ''u''] \<and>
         bots s' = [(''a'', 7)]"
    by (intro exI [of _ s'] conjI)
  with z c1 on c2 a off show ?thesis
    by (intro conjI)
qed

subsection \<open>An opener that throws\<close>

lemma try_connect_threw:
  "try_connectJava (Threw msg) i u s = Inl (msg, call (CreateBot u) s)"
  "try_connectBedrock (Threw msg) i u s = Inl (msg, call (CreateClient u) s)"
  by (simp_all add: try_connectJava_def try_connectBedrock_def)

text \<open>
  C8. Let the account exist and not be \<open>Online\<close>, and let the opener throw. Inside
  \<open>connectJava\<close> and \<open>connectBedrock\<close> the \<open>try\<close> block ends with the exception, and
  \<open>connectBot\<close> still returns normally: the exception does not reach the caller. The
  returned manager holds the account with status \<open>Connecting\<close> and with two more log
  entries, the connecting message and then the failure message with the text of the
  exception; no connection is stored; the failure log is the last emission.
\<close>

theorem opener_failure_caught:
  assumes a: "map_of (accounts s) i = Some a" and off: "status a \<noteq> Online"
  shows "\<exists>s'. connectBot ip now now' (Threw msg) i s = Inr s' \<and>
           map_of (accounts s') i =
             Some (a\<lparr>status := Connecting,
                    logs := push_log
                      (stamp now' ((if btype a = Java then ''Connection failed: ''
                                    else ''Bedrock Connection failed: '') @ msg))
                      (push_log (stamp now (connecting ip (btype a))) (logs a))\<rparr>) \<and>
           map_option status (map_of (accounts s') i) = Some Connecting \<and>
           bots s' = bots s \<and> db s' = db s \<and>
           trace s' =
             trace s @
             [Update (map snd (AList.update i (a\<lparr>status := Connecting\<rparr>) (accounts s))),
              Update (map snd (AList.update i
                (a\<lparr>status := Connecting,
                   logs := push_log (stamp now (connecting ip (btype a))) (logs a)\<rparr>)
                (accounts s))),
              if btype a = Java then CreateBot (username a) else CreateClient (username a),
              Update (getAccounts s')] \<and>
           try_connectJava (Threw msg) i (username a) s =
             Inl (msg, call (CreateBot (username a)) s) \<and>
           try_connectBedrock (Threw msg) i (username a) s =
             Inl (msg, call (CreateClient (username a)) s)"
proof -
  let ?m = "connecting ip (btype a)"
  let ?a = "a\<lparr>status := Connecting, logs := push_log (stamp now ?m) (logs a)\<rparr>"
  let ?s2 = "log_msg now i ?m (emit_update (set_status i Connecting s))"
  let ?open = "if btype a = Java then CreateBot (username a) else CreateClient (username a)"
  let ?s3 = "call ?open ?s2"
  let ?f = "(if btype a = Java then ''Connection failed: ''
             else ''Bedrock Connection failed: '') @ msg"
  let ?s' = "log_msg now' i ?f ?s3"
  have s2: "?s2 = s\<lparr>accounts := AList.update i ?a (accounts s),
              trace := trace s @
                [Update (map snd (AList.update i (a\<lparr>status := Connecting\<rparr>) (accounts s))),
                 Update (map snd (AList.update i ?a (accounts s)))]\<rparr>"
    using a by (rule connecting_state)
  have c1: "connectBot ip now now' (Threw msg) i s = Inr ?s'"
    using connectBot_run [OF a off, of ip now now' "Threw msg"] unfolding Let_def by simp
  have l: "map_of (accounts ?s3) i = Some ?a"
    by (simp add: s2 update_conv')
  have t3: "trace ?s3 = trace s @
           [Update (map snd (AList.update i (a\<lparr>status := Connecting\<rparr>) (accounts s))),
            Update (map snd (AList.update i ?a (accounts s))), ?open]"
    by (simp add: s2)
  have c2: "map_of (accounts ?s') i = Some (?a\<lparr>logs := push_log (stamp now' ?f) (logs ?a)\<rparr>)"
    using log_msg_lookup [of now' i ?f ?s3 i] unfolding l by simp
  have c2': "map_of (accounts ?s') i =
      Some (a\<lparr>status := Connecting,
             logs := push_log (stamp now' ?f) (push_log (stamp now ?m) (logs a))\<rparr>)"
    unfolding c2 by simp
  have c3: "map_option status (map_of (accounts ?s') i) = Some Connecting"
    by (rule log_msg_keeps_status [OF l]) simp
  have c4: "bots ?s' = bots s" "db ?s' = db s"
    by (simp_all add: s2)
  have c5: "trace ?s' = trace s @
           [Update (map snd (AList.update i (a\<lparr>status := Connecting\<rparr>) (accounts s))),
            Update (map snd (AList.update i ?a (accounts s))), ?open,
            Update (getAccounts ?s')]"
    unfolding log_msg_trace [OF l, of now' ?f] t3 by simp
  show ?thesis
    using c1 c2' c3 c4 c5 try_connect_threw [of msg i "username a" s]
    by (rule_tac x = "?s'" in exI, intro conjI) assumption+
qed

theorem opener_failure_caught_witness:
  "map_of (accounts offline_manager) ''a'' = Some (fresh_account ''a'' ''u'' Java) \<and>
   status (fresh_account ''a'' ''u'' Java) \<noteq> Online \<and>
   (\<exists>s'. connectBot ''mc.example.org'' ''12:00:00'' ''12:00:01'' (Threw ''boom'') ''a''
           offline_manager = Inr s' \<and>
         map_of (accounts s') ''a'' =
           Some ((fresh_account ''a'' ''u'' Java)
                   \<lparr>status := Connecting,
                    logs := [''[12:00:00] Connecting to mc.example.org (java)...'',
                             ''[12:00:01] Connection failed: boom'']\<rparr>) \<and>
         bots s' = [])"
proof -
  have a: "map_of (accounts offline_manager) ''a'' = Some (fresh_account ''a'' ''u'' Java)"
    by (simp add: offline_manager_eq)
  have off: "status (fresh_account ''a'' ''u'' Java) \<noteq> Online"
    by (simp add: fresh_account_def)
  from opener_failure_caught [OF a off, of "''mc.example.org''" "''12:00:00''" "''12:00:01''"
      "''boom''"]
  obtain s' where
    r: "connectBot ''mc.example.org'' ''12:00:00'' ''12:00:01'' (Threw ''boom'') ''a''
           offline_manager = Inr s'" and
    l: "map_of (accounts s') ''a'' =
             Some ((fresh_account ''a'' ''u'' Java)\<lparr>status := Connecting,
                    logs := push_log
                      (stamp ''12:00:01''
                         ((if btype (fresh_account ''a'' ''u'' Java) = Java
                           then ''Connection failed: ''
                           else ''Bedrock Connection failed: '') @ ''boom''))
                      (push_log (stamp ''12:00:00''
                         (connecting ''mc.example.org'' (btype (fresh_account ''a'' ''u'' Java))))
                         (logs (fresh_account ''a'' ''u'' Java)))\<rparr>)" and
    b: "bots s' = bots offline_manager"
    by blast
  have l': "map_of (accounts s') ''a'' =
           Some ((fresh_account ''a'' ''u'' Java)
                   \<lparr>status := Connecting,
                    logs := [''[12:00:00] Connecting to mc.example.org (java)...'',
                             ''[12:00:01] Connection failed: boom'']\<rparr>)"
    unfolding l
    by (simp add: fresh_account_def push_log_def stamp_def connecting_def type_name_def)
  have b': "bots s' = []"
    unfolding b by (simp add: offline_manager_eq)
  from r l' b' have "\<exists>s'. connectBot ''mc.example.org'' ''12:00:00'' ''12:00:01'' (Threw ''boom'') ''a''
           offline_manager = Inr s' \<and>
         map_of (accounts s') ''a'' =
           Some ((fresh_account ''a'' ''u'' Java)
                   \<lparr>status := Connecting,
                    logs := [''[12:00:00] Connecting to mc.example.org (java)...'',
                             ''[12:00:01] Connection failed: boom'']\<rparr>) \<and>
         bots s' = []"
    by (intro exI [of _ s'] conjI)
  with a off show ?thesis
    by (intro conjI)
qed

subsection \<open>Disconnecting\<close>





subsection \<open>Labels and letter case\<close>

lemma of_char_lower:
  "(of_char (lower_char c) :: nat) =
     (if (65 \<le> (of_char c :: nat) \<and> (of_char c :: nat) \<le> 90) \<or>
         (192 \<le> (of_char c :: nat) \<and> (of_char c :: nat) \<le> 222 \<and> (of_char c :: nat) \<noteq> 215)
      then of_char c + 32 else of_char c)"
  by (auto simp: lower_char_def Let_def)

lemma lower_char_eq_iff:
  assumes "(of_char d :: nat) < 65 \<or> (of_char d :: nat) = 167"
  shows "(lower_char c = d) = (c = d)"
proof -
  have "(lower_char c = d) = ((of_char (lower_char c) :: nat) = of_char d)"
    by (simp only: of_char_eq_iff)
  also have "\<dots> = ((of_char c :: nat) = of_char d)"
    using assms unfolding of_char_lower by (cases "(of_char c :: nat) = of_char d") auto
  also have "\<dots> = (c = d)"
    by (simp only: of_char_eq_iff)
  finally show ?thesis .
qed

lemma lower_char_section [simp]: "(lower_char c = section_sign) = (c = section_sign)"
  by (rule lower_char_eq_iff) (simp add: section_sign_def)

lemma lower_char_dollar [simp]: "(lower_char c = CHR ''$'') = (c = CHR ''$'')"
  by (rule lower_char_eq_iff) simp

lemma lower_char_any [simp]: "any_char (lower_char c) = any_char c"
proof -
  have "(lower_char c = CHR 0x0A) = (c = CHR 0x0A)"
    by (rule lower_char_eq_iff) simp
  moreover have "(lower_char c = CHR 0x0D) = (c = CHR 0x0D)"
    by (rule lower_char_eq_iff) simp
  ultimately show ?thesis
    unfolding any_char_def by blast
qed

lemma lower_char_idem [simp]: "lower_char (lower_char c) = lower_char c"
proof (rule of_char_eqI [where ?'a = nat])
  show "(of_char (lower_char (lower_char c)) :: nat) = of_char (lower_char c)"
    unfolding of_char_lower [of "lower_char c"] unfolding of_char_lower [of c] by auto
qed

lemma strip_codes_lower:
  "strip_codes any_char (map lower_char cs) = map lower_char (strip_codes any_char cs)"
  by (induction any_char cs rule: strip_codes.induct) simp_all

lemma strip_glyphs_lower: "strip_glyphs (map lower_char cs) = map lower_char (strip_glyphs cs)"
  by (induction cs) (simp_all add: strip_glyphs_def)

lemma clean_text_lower: "clean_text (toLowerCase raw) = clean_text raw"
  by (simp add: clean_text_def toLowerCase_def strip_codes_lower strip_glyphs_lower)

lemma extract_stat_case_insensitive:
  assumes "toLowerCase raw = toLowerCase raw'"
  shows "extract_stat raw = extract_stat raw'"
proof -
  have "clean_text raw = clean_text (toLowerCase raw)" by (simp add: clean_text_lower)
  also have "\<dots> = clean_text raw'" unfolding assms by (simp add: clean_text_lower)
  finally show ?thesis by (simp add: extract_stat_def)
qed

text \<open>
  C9. On the path through \<open>updateStat\<close> the label is looked for in the lower-cased text
  (\<open>extract_stat_case_insensitive\<close>), and the first of "money", "shards" that occurs is
  taken. The \<open>scoreUpdated\<close> handler of a Java bot does otherwise: it looks for "Shards"
  and "Money" in the text as it is written, and applies each of the two that occurs. For
  the scoreboard text "shards 5" it changes nothing, where \<open>updateStat\<close> stores 5 shards
  for the same text; it does store 5 shards for "Shards 5"; and for "Shards 5 Money 7" it
  stores 5 as shards and as money, where the extractor of \<open>updateStat\<close> yields (money, 7).
\<close>

theorem scoreUpdated_label_case:
  "scoreUpdated ''a'' (Some ''shards 5'') offline_manager = offline_manager \<and>
   map_option accountData (map_of (accounts (updateStat ''a'' ''shards 5'' offline_manager)) ''a'') =
     Some \<lparr>shards = 5, money = 0, kills = 0, deaths = 0\<rparr> \<and>
   map_option accountData
     (map_of (accounts (scoreUpdated ''a'' (Some ''Shards 5'') offline_manager)) ''a'') =
     Some \<lparr>shards = 5, money = 0, kills = 0, deaths = 0\<rparr> \<and>
   map_option accountData
     (map_of (accounts (scoreUpdated ''a'' (Some ''Shards 5 Money 7'') offline_manager)) ''a'') =
     Some \<lparr>shards = 5, money = 5, kills = 0, deaths = 0\<rparr> \<and>
   extract_stat ''Shards 5 Money 7'' = Some (''money'', 7)"
  by code_simp

end
